theory Spec2Isabelle
  imports Complex_Main "HOL-Library.Sublist"
begin

section \<open>Request protocol codec of \<open>adc-daemon.py\<close>\<close>

text \<open>
  The daemon receives a payload of raw bytes and evaluates
  \<^verbatim>\<open>int(data.decode('utf-8').strip())\<close>.  Bytes are modelled as \<^typ>\<open>char\<close>
  (an 8-bit value), a Python \<open>str\<close> as the list of its code points.
\<close>

type_synonym bytes = string
type_synonym pystr = "nat list"

subsection \<open>\<open>bytes.decode('utf-8')\<close>\<close>

definition byte_in :: "nat \<Rightarrow> nat \<Rightarrow> char \<Rightarrow> bool" where
  "byte_in lo hi c \<longleftrightarrow> lo \<le> (of_char c :: nat) \<and> (of_char c :: nat) \<le> hi"

definition low6 :: "char \<Rightarrow> nat" where
  "low6 c = (of_char c :: nat) mod 64"

text \<open>
  Strict UTF-8 as Python decodes it: shortest form only, no surrogates, nothing above
  U+10FFFF.  \<open>None\<close> is \<open>UnicodeDecodeError\<close>.
\<close>

fun decode_utf8 :: "bytes \<Rightarrow> pystr option" where
  "decode_utf8 [] = Some []"
| "decode_utf8 (c # cs) =
     (let b = (of_char c :: nat) in
      if b < 0x80 then map_option ((#) b) (decode_utf8 cs)
      else if 0xC2 \<le> b \<and> b \<le> 0xDF then
        (case cs of
           c1 # r \<Rightarrow>
             if byte_in 0x80 0xBF c1
             then map_option ((#) ((b mod 32) * 64 + low6 c1)) (decode_utf8 r)
             else None
         | _ \<Rightarrow> None)
      else if 0xE0 \<le> b \<and> b \<le> 0xEF then
        (case cs of
           c1 # c2 # r \<Rightarrow>
             if byte_in (if b = 0xE0 then 0xA0 else 0x80) (if b = 0xED then 0x9F else 0xBF) c1
                \<and> byte_in 0x80 0xBF c2
             then map_option ((#) ((b mod 16) * 4096 + low6 c1 * 64 + low6 c2)) (decode_utf8 r)
             else None
         | _ \<Rightarrow> None)
      else if 0xF0 \<le> b \<and> b \<le> 0xF4 then
        (case cs of
           c1 # c2 # c3 # r \<Rightarrow>
             if byte_in (if b = 0xF0 then 0x90 else 0x80) (if b = 0xF4 then 0x8F else 0xBF) c1
                \<and> byte_in 0x80 0xBF c2 \<and> byte_in 0x80 0xBF c3
             then map_option ((#) ((b mod 8) * 262144 + low6 c1 * 4096 + low6 c2 * 64 + low6 c3))
                    (decode_utf8 r)
             else None
         | _ \<Rightarrow> None)
      else None)"

subsection \<open>\<open>str.strip()\<close>\<close>

text \<open>The code points for which \<open>str.isspace\<close> holds (\<open>Py_UNICODE_ISSPACE\<close>).\<close>

definition py_isspace :: "nat \<Rightarrow> bool" where
  "py_isspace c \<longleftrightarrow>
     (0x09 \<le> c \<and> c \<le> 0x0D) \<or> (0x1C \<le> c \<and> c \<le> 0x20) \<or> c = 0x85 \<or> c = 0xA0
     \<or> c = 0x1680 \<or> (0x2000 \<le> c \<and> c \<le> 0x200A) \<or> c = 0x2028 \<or> c = 0x2029
     \<or> c = 0x202F \<or> c = 0x205F \<or> c = 0x3000"

definition strip :: "pystr \<Rightarrow> pystr" where
  "strip s = rev (dropWhile py_isspace (rev (dropWhile py_isspace s)))"

subsection \<open>\<open>int(str)\<close>\<close>

text \<open>
  The code points of value zero of every run of ten decimal digits (general category Nd,
  Unicode 14.0, the table of CPython 3.11); later Unicode versions only add rows.
\<close>

definition decimal_zeros :: "nat list" where
  "decimal_zeros =
    [0x30, 0x660, 0x6F0, 0x7C0, 0x966, 0x9E6, 0xA66, 0xAE6, 0xB66, 0xBE6, 0xC66, 0xCE6,
     0xD66, 0xDE6, 0xE50, 0xED0, 0xF20, 0x1040, 0x1090, 0x17E0, 0x1810, 0x1946, 0x19D0,
     0x1A80, 0x1A90, 0x1B50, 0x1BB0, 0x1C40, 0x1C50, 0xA620, 0xA8D0, 0xA900, 0xA9D0,
     0xA9F0, 0xAA50, 0xABF0, 0xFF10, 0x104A0, 0x10D30, 0x11066, 0x110F0, 0x11136,
     0x111D0, 0x112F0, 0x11450, 0x114D0, 0x11650, 0x116C0, 0x11730, 0x118E0, 0x11950,
     0x11C50, 0x11D50, 0x11DA0, 0x16A60, 0x16AC0, 0x16B50, 0x1D7CE, 0x1D7D8, 0x1D7E2,
     0x1D7EC, 0x1D7F6, 0x1E140, 0x1E2F0, 0x1E950, 0x1FBF0]"

definition todecimal :: "nat \<Rightarrow> nat option" where
  "todecimal c =
     (case filter (\<lambda>z. z \<le> c \<and> c < z + 10) decimal_zeros of
        [] \<Rightarrow> None
      | z # _ \<Rightarrow> Some (c - z))"

text \<open>
  \<open>int\<close> first rewrites the string to ASCII: a non-ASCII space becomes a blank, a
  non-ASCII decimal digit its ASCII digit, and at anything else the copy ends with a
  question mark.  A string that is ASCII already is taken as it is.
\<close>

fun transform_decimal_and_space :: "pystr \<Rightarrow> pystr" where
  "transform_decimal_and_space [] = []"
| "transform_decimal_and_space (c # cs) =
     (if c < 127 then c # transform_decimal_and_space cs
      else if py_isspace c then 0x20 # transform_decimal_and_space cs
      else (case todecimal c of
              None \<Rightarrow> [0x3F]
            | Some d \<Rightarrow> (0x30 + d) # transform_decimal_and_space cs))"

definition to_ascii :: "pystr \<Rightarrow> pystr" where
  "to_ascii s = (if list_all (\<lambda>c. c < 128) s then s else transform_decimal_and_space s)"

definition c_isspace :: "nat \<Rightarrow> bool" where
  "c_isspace c \<longleftrightarrow> c = 0x20 \<or> (0x09 \<le> c \<and> c \<le> 0x0D)"

definition c_isdigit :: "nat \<Rightarrow> bool" where
  "c_isdigit c \<longleftrightarrow> 0x30 \<le> c \<and> c \<le> 0x39"

text \<open>
  The digit scan of \<open>long_from_string_base\<close> in base 10: digits and single underscores
  between digits.  \<open>prev\<close> is the character before, \<open>acc\<close> the value so far; the result
  is the value and the unread rest.
\<close>

fun scan_digits :: "nat \<Rightarrow> nat \<Rightarrow> pystr \<Rightarrow> (nat \<times> pystr) option" where
  "scan_digits prev acc [] = (if prev = 0x5F then None else Some (acc, []))"
| "scan_digits prev acc (c # cs) =
     (if c_isdigit c then scan_digits c (acc * 10 + (c - 0x30)) cs
      else if c = 0x5F then (if prev = 0x5F then None else scan_digits c acc cs)
      else if prev = 0x5F then None
      else Some (acc, c # cs))"

definition long_from_string_base :: "pystr \<Rightarrow> (nat \<times> pystr) option" where
  "long_from_string_base s =
     (case s of
        [] \<Rightarrow> None
      | c # _ \<Rightarrow>
          if c = 0x5F then None
          else (case scan_digits 0 0 s of
                  None \<Rightarrow> None
                | Some (v, rest) \<Rightarrow> if length rest = length s then None else Some (v, rest)))"

definition PyLong_FromString :: "pystr \<Rightarrow> int option" where
  "PyLong_FromString s =
     (let s1 = dropWhile c_isspace s;
          neg = (case s1 of c # _ \<Rightarrow> c = 0x2D | [] \<Rightarrow> False);
          s2 = (case s1 of c # r \<Rightarrow> if c = 0x2B \<or> c = 0x2D then r else s1 | [] \<Rightarrow> [])
      in case long_from_string_base s2 of
           None \<Rightarrow> None
         | Some (v, rest) \<Rightarrow>
             if dropWhile c_isspace rest = [] then Some (if neg then - int v else int v)
             else None)"

text \<open>\<open>int(s)\<close>; \<open>None\<close> is \<open>ValueError\<close>.\<close>

definition py_int :: "pystr \<Rightarrow> int option" where
  "py_int s = PyLong_FromString (to_ascii s)"

subsection \<open>\<open>str(int)\<close> and \<open>f"{voltage:.4f}"\<close>\<close>

definition digit_char :: "nat \<Rightarrow> char" where
  "digit_char d = ''0123456789'' ! d"

function str_nat :: "nat \<Rightarrow> string" where
  "str_nat n = (if n < 10 then [digit_char n] else str_nat (n div 10) @ [digit_char (n mod 10)])"
  by pat_completeness auto
termination
  by (relation "measure (\<lambda>n. n)") auto

declare str_nat.simps [simp del]

definition str_int :: "int \<Rightarrow> string" where
  "str_int i = (if i < 0 then CHR ''-'' # str_nat (nat (- i)) else str_nat (nat i))"

text \<open>
  A Python float.  A finite float is the rational number it stands for (every finite
  double is one); the zero with the sign bit set, the infinities and the NaN are apart.
\<close>

datatype pyfloat = Finite rat | NegZero | PosInf | NegInf | NaN

definition round_half_even :: "rat \<Rightarrow> int" where
  "round_half_even x =
     (let f = \<lfloor>x\<rfloor>; r = x - of_int f
      in if r < 1 / 2 then f else if 1 / 2 < r then f + 1 else if even f then f else f + 1)"

definition pad4 :: "nat \<Rightarrow> string" where
  "pad4 k = [digit_char (k div 1000 mod 10), digit_char (k div 100 mod 10),
             digit_char (k div 10 mod 10), digit_char (k mod 10)]"

text \<open>The correctly rounded decimal expansion with four fraction digits of \<open>q \<ge> 0\<close>.\<close>

definition fixed4 :: "rat \<Rightarrow> string" where
  "fixed4 q =
     (let n = nat (round_half_even (q * 10000))
      in str_nat (n div 10000) @ ''.'' @ pad4 (n mod 10000))"

definition format_4f :: "pyfloat \<Rightarrow> string" where
  "format_4f x =
     (case x of
        Finite q \<Rightarrow> if q < 0 then CHR ''-'' # fixed4 (- q) else fixed4 q
      | NegZero \<Rightarrow> ''-0.0000''
      | PosInf \<Rightarrow> ''inf''
      | NegInf \<Rightarrow> ''-inf''
      | NaN \<Rightarrow> ''nan'')"

text \<open>The voltage format of the wire protocol, \<^verbatim>\<open>^\d+\.\d{4}$\<close> over ASCII digits.\<close>

definition is_ascii_digit :: "char \<Rightarrow> bool" where
  "is_ascii_digit c \<longleftrightarrow> 48 \<le> (of_char c :: nat) \<and> (of_char c :: nat) \<le> 57"

definition voltage_format :: "string \<Rightarrow> bool" where
  "voltage_format s \<longleftrightarrow>
     takeWhile is_ascii_digit s \<noteq> [] \<and>
     (case dropWhile is_ascii_digit s of
        [] \<Rightarrow> False
      | d # f \<Rightarrow> d = CHR ''.'' \<and> length f = 4 \<and> list_all is_ascii_digit f)"

section \<open>The daemon process\<close>

subsection \<open>State, environment and exceptions\<close>

datatype node = SocketNode | FileNode | DirNode

datatype termsig = SIGTERM | SIGINT

text \<open>
  The exceptions a library call raises are below \<open>Exception\<close>: \<open>ValueError\<close> (with
  its subclasses, \<open>UnicodeDecodeError\<close> among them) or any other class, each with the
  text \<open>str(e)\<close> gives.  \<open>SystemExit\<close> is below \<open>BaseException\<close> only.
\<close>

datatype pyerr = ValueError string | OtherException string

datatype abrupt = Raised pyerr | SystemExit int

fun str_exc :: "pyerr \<Rightarrow> string" where
  "str_exc (ValueError m) = m"
| "str_exc (OtherException m) = m"

text \<open>The status the process ends with: an uncaught exception ends it with status 1.\<close>

fun exit_status :: "abrupt \<Rightarrow> int" where
  "exit_status (SystemExit n) = n"
| "exit_status (Raised e) = 1"

text \<open>
  What the world answers to a call of the daemon: the call returns, it raises, or one of
  the two handled signals arrives while the daemon is in it.
\<close>

datatype 'a answer = Returns 'a | Fails pyerr | Interrupted termsig

datatype pin = D25 | D26

datatype logmsg = Text string | ErrorDict string

datatype event =
    Logged logmsg int string
  | PinAcquired pin
  | VoltageRead nat
  | SendAll string
  | ConnClosed
  | Slept rat
  | Unlinked string
  | SocketCreated
  | Bound string
  | Chmod string nat
  | Listen nat

record daemon =
  loglevel :: int
  socket_file :: string
  channels :: "nat list"
  fs :: "string \<Rightarrow> node option"
  trace :: "event list"

text \<open>The globals as the module sets them, over the file system it finds.\<close>

definition module_state :: "(string \<Rightarrow> node option) \<Rightarrow> daemon" where
  "module_state files =
     \<lparr>loglevel = 3, socket_file = ''/tmp/adc-daemon.sock'', channels = [], fs = files,
      trace = []\<rparr>"

definition emit :: "event \<Rightarrow> daemon \<Rightarrow> daemon" where
  "emit e d = d\<lparr>trace := trace d @ [e]\<rparr>"

text \<open>
  \<open>log_message_json\<close>: one record to syslog and standard output when the level of the
  call is within the threshold (the time stamp of the record is left out).  Writing the
  record is taken to succeed.
\<close>

definition log_message_json :: "logmsg \<Rightarrow> int \<Rightarrow> string \<Rightarrow> daemon \<Rightarrow> daemon" where
  "log_message_json message level severity d =
     (if level \<le> loglevel d then emit (Logged message level severity) d else d)"

definition os_path_exists :: "string \<Rightarrow> daemon \<Rightarrow> bool" where
  "os_path_exists p d \<longleftrightarrow> fs d p \<noteq> None"

text \<open>\<open>os.unlink\<close> removes a file or a socket; it raises on a missing path and on a directory.\<close>

definition os_unlink :: "string \<Rightarrow> daemon \<Rightarrow> pyerr + daemon" where
  "os_unlink p d =
     (case fs d p of
        None \<Rightarrow> Inl (OtherException ''[Errno 2] No such file or directory'')
      | Some DirNode \<Rightarrow> Inl (OtherException ''[Errno 21] Is a directory'')
      | Some _ \<Rightarrow> Inr (emit (Unlinked p) (d\<lparr>fs := (fs d)(p := None)\<rparr>)))"

subsection \<open>The signal handler\<close>

definition signal_handler :: "termsig \<Rightarrow> daemon \<Rightarrow> abrupt \<times> daemon" where
  "signal_handler sig d =
     (let d1 = log_message_json (Text ''Received termination signal; shutting down.'') 2 ''info'' d
      in if os_path_exists (socket_file d1) d1
         then (case os_unlink (socket_file d1) d1 of
                 Inl e \<Rightarrow> (Raised e, d1)
               | Inr d2 \<Rightarrow> (SystemExit 0, d2))
         else (SystemExit 0, d1))"

text \<open>A call into the world; a signal that arrives in it runs the handler there.\<close>

definition call :: "'a answer \<Rightarrow> daemon \<Rightarrow> (abrupt + 'a) \<times> daemon" where
  "call ans d =
     (case ans of
        Returns v \<Rightarrow> (Inr v, d)
      | Fails e \<Rightarrow> (Inl (Raised e), d)
      | Interrupted sig \<Rightarrow> (case signal_handler sig d of (a, d') \<Rightarrow> (Inl a, d')))"

subsection \<open>One connection\<close>

record conn_env =
  on_accept :: "unit answer"
  on_recv :: "bytes answer"
  on_read :: "pyfloat answer"
  on_send :: "unit answer"

text \<open>\<open>channels[channel].voltage\<close>, for an index that is not negative.\<close>

definition read_voltage :: "nat \<Rightarrow> pyfloat answer \<Rightarrow> daemon \<Rightarrow> (abrupt + pyfloat) \<times> daemon" where
  "read_voltage i ans d =
     (if i < length (channels d)
      then (case ans of
              Interrupted sig \<Rightarrow> call ans d
            | _ \<Rightarrow> call ans (emit (VoltageRead (channels d ! i)) d))
      else (Inl (Raised (OtherException ''list index out of range'')), d))"

text \<open>
  \<open>int(data.decode('utf-8').strip())\<close>; \<open>None\<close> is the \<open>ValueError\<close> of \<open>int\<close> or
  the \<open>UnicodeDecodeError\<close> of \<open>decode\<close>, which is a \<open>ValueError\<close> too.
\<close>

definition parse_channel :: "bytes \<Rightarrow> int option" where
  "parse_channel data =
     (case decode_utf8 data of
        None \<Rightarrow> None
      | Some text \<Rightarrow> py_int (strip text))"

text \<open>The statements under the inner \<open>try\<close>.\<close>

definition try_body :: "bytes \<Rightarrow> pyfloat answer \<Rightarrow> daemon \<Rightarrow> (abrupt + string) \<times> daemon" where
  "try_body data ans d =
     (case parse_channel data of
        None \<Rightarrow> (Inl (Raised (ValueError ''invalid channel text'')), d)
      | Some channel \<Rightarrow>
          (let d1 = log_message_json
                      (Text (''Received request for channel '' @ str_int channel)) 3 ''info'' d
           in if 0 \<le> channel \<and> channel \<le> 7
              then (case read_voltage (nat channel) ans d1 of
                      (Inl a, d2) \<Rightarrow> (Inl a, d2)
                    | (Inr voltage, d2) \<Rightarrow>
                        (let response = format_4f voltage
                         in (Inr response,
                             log_message_json
                               (Text (''Channel '' @ str_int channel @ '' voltage: ''
                                      @ response @ ''V'')) 3 ''info'' d2)))
              else (Inr ''ERROR: Channel must be 0-7'', d1)))"

text \<open>The inner \<open>try\<close> with its two handlers.\<close>

definition compute_response :: "bytes \<Rightarrow> pyfloat answer \<Rightarrow> daemon \<Rightarrow> (abrupt + string) \<times> daemon" where
  "compute_response data ans d =
     (case try_body data ans d of
        (Inr response, d') \<Rightarrow> (Inr response, d')
      | (Inl (Raised (ValueError m)), d') \<Rightarrow> (Inr ''ERROR: Invalid channel format'', d')
      | (Inl (Raised (OtherException m)), d') \<Rightarrow> (Inr (''ERROR: '' @ m), d')
      | (Inl (SystemExit n), d') \<Rightarrow> (Inl (SystemExit n), d'))"

text \<open>
  \<open>conn.sendall(response.encode('utf-8'))\<close>; the replies are ASCII, which UTF-8 leaves
  as it is.  The block \<open>with conn:\<close>.  \<open>recv(1024)\<close> hands over at most 1024 bytes of what the
  peer sent; the connection is closed however the block is left.
\<close>

definition send_all :: "string \<Rightarrow> unit answer \<Rightarrow> daemon \<Rightarrow> (abrupt + unit) \<times> daemon" where
  "send_all response ans d =
     (case ans of
        Interrupted sig \<Rightarrow> call ans d
      | _ \<Rightarrow> call ans (emit (SendAll response) d))"

definition serve_connection :: "conn_env \<Rightarrow> daemon \<Rightarrow> abrupt option \<times> daemon" where
  "serve_connection env d =
     (case call (on_recv env) d of
        (Inl a, d1) \<Rightarrow> (Some a, emit ConnClosed d1)
      | (Inr received, d1) \<Rightarrow>
          (let data = take 1024 received
           in if data = [] then (None, emit ConnClosed d1)
              else (case compute_response data (on_read env) d1 of
                      (Inl a, d2) \<Rightarrow> (Some a, emit ConnClosed d2)
                    | (Inr response, d2) \<Rightarrow>
                        (case send_all response (on_send env) d2 of
                           (Inl a, d3) \<Rightarrow> (Some a, emit ConnClosed d3)
                         | (Inr u, d3) \<Rightarrow> (None, emit ConnClosed d3)))))"

text \<open>One turn of \<open>while True\<close>: the outer \<open>try\<close> and its handler.\<close>

definition loop_iteration :: "conn_env \<Rightarrow> daemon \<Rightarrow> abrupt option \<times> daemon" where
  "loop_iteration env d =
     (case (case call (on_accept env) d of
              (Inl a, d1) \<Rightarrow> (Some a, d1)
            | (Inr u, d1) \<Rightarrow> serve_connection env d1) of
        (Some (Raised e), d2) \<Rightarrow>
          (None, emit (Slept (1 / 10))
                   (log_message_json (ErrorDict (str_exc e)) 0 ''exception'' d2))
      | (Some (SystemExit n), d2) \<Rightarrow> (Some (SystemExit n), d2)
      | (None, d2) \<Rightarrow> (None, d2))"

text \<open>
  The loop over the connections of a finite prefix of the run; \<open>None\<close> says that the
  daemon is still in the loop, waiting in \<open>accept\<close>.
\<close>

fun accept_loop :: "conn_env list \<Rightarrow> daemon \<Rightarrow> abrupt option \<times> daemon" where
  "accept_loop [] d = (None, d)"
| "accept_loop (env # envs) d =
     (case loop_iteration env d of
        (None, d') \<Rightarrow> accept_loop envs d'
      | (Some a, d') \<Rightarrow> (Some a, d'))"

subsection \<open>Startup\<close>

text \<open>
  The command line as \<open>argparse\<close> sees it: the value given to \<open>--loglevel\<close> and the
  value given to \<open>--hwversion\<close>, when present.
\<close>

record cli =
  opt_loglevel :: "string option"
  opt_hwversion :: "string option"

record args =
  args_loglevel :: int
  args_hwversion :: string

text \<open>
  \<open>parse_arguments\<close>: \<open>--loglevel\<close> goes through \<open>int\<close> and defaults to 3,
  \<open>--hwversion\<close> is required and is one of three choices.  On an error \<open>argparse\<close> writes
  its usage message to standard error and leaves with \<open>SystemExit(2)\<close>.
\<close>

definition parse_arguments :: "cli \<Rightarrow> abrupt + args" where
  "parse_arguments c =
     (case (case opt_loglevel c of
              None \<Rightarrow> Some 3
            | Some s \<Rightarrow> py_int (map of_char s)) of
        None \<Rightarrow> Inl (SystemExit 2)
      | Some l \<Rightarrow>
          (case opt_hwversion c of
             None \<Rightarrow> Inl (SystemExit 2)
           | Some v \<Rightarrow>
               if v \<in> set [''2.2'', ''5.1'', ''7.1'']
               then Inr \<lparr>args_loglevel = l, args_hwversion = v\<rparr>
               else Inl (SystemExit 2)))"

text \<open>
  The chip-select pin by hardware version; with any other version \<open>adccs\<close> stays
  unbound (\<open>None\<close>).
\<close>

definition acquire_cs :: "string \<Rightarrow> unit answer \<Rightarrow> daemon \<Rightarrow> (abrupt + pin option) \<times> daemon" where
  "acquire_cs hwversion ans d =
     (if hwversion \<in> set [''2.2'', ''5.1'']
      then (case call ans d of
              (Inl a, d') \<Rightarrow> (Inl a, d')
            | (Inr u, d') \<Rightarrow> (Inr (Some D26), emit (PinAcquired D26) d'))
      else if hwversion = ''7.1''
      then (case call ans d of
              (Inl a, d') \<Rightarrow> (Inl a, d')
            | (Inr u, d') \<Rightarrow> (Inr (Some D25), emit (PinAcquired D25) d'))
      else (Inr None, d))"

record start_env =
  on_cs_pin :: "unit answer"
  on_spi :: "unit answer"
  on_mcp :: "unit answer"
  on_analog_in :: "unit answer"

text \<open>An analog input is known by the pin of the converter it is bound to, \<open>P0\<close> to \<open>P7\<close>.\<close>

definition mcp_pins :: "nat list" where
  "mcp_pins = [0, 1, 2, 3, 4, 5, 6, 7]"

text \<open>The statements under the \<open>try\<close> of the hardware initialisation.\<close>

definition init_body :: "pin option \<Rightarrow> start_env \<Rightarrow> daemon \<Rightarrow> (abrupt + unit) \<times> daemon" where
  "init_body adccs env d =
     (case call (on_spi env) d of
        (Inl a, d1) \<Rightarrow> (Inl a, d1)
      | (Inr u, d1) \<Rightarrow>
          (case adccs of
             None \<Rightarrow> (Inl (Raised (OtherException ''UnboundLocalError'')), d1)
           | Some cs \<Rightarrow>
               (case call (on_mcp env) d1 of
                  (Inl a, d2) \<Rightarrow> (Inl a, d2)
                | (Inr u, d2) \<Rightarrow>
                    (case call (on_analog_in env) d2 of
                       (Inl a, d3) \<Rightarrow> (Inl a, d3)
                     | (Inr u, d3) \<Rightarrow>
                         (Inr (),
                          log_message_json (Text ''ADC channels initialized successfully'') 3
                            ''info'' (d3\<lparr>channels := mcp_pins\<rparr>))))))"

text \<open>The \<open>try\<close> with its handler, which logs and calls \<open>exit(1)\<close>.\<close>

definition init_adc :: "pin option \<Rightarrow> start_env \<Rightarrow> daemon \<Rightarrow> (abrupt + unit) \<times> daemon" where
  "init_adc adccs env d =
     (case init_body adccs env d of
        (Inl (Raised e), d') \<Rightarrow>
          (Inl (SystemExit 1), log_message_json (ErrorDict (str_exc e)) 0 ''exception'' d')
      | r \<Rightarrow> r)"

text \<open>\<open>server.bind\<close> makes the socket node; it raises when the path is taken.\<close>

definition socket_bind :: "string \<Rightarrow> daemon \<Rightarrow> pyerr + daemon" where
  "socket_bind p d =
     (if fs d p \<noteq> None then Inl (OtherException ''Address already in use'')
      else Inr (emit (Bound p) (d\<lparr>fs := (fs d)(p \<mapsto> SocketNode)\<rparr>)))"

text \<open>
  From the removal of a stale socket file to \<open>listen\<close>; nothing here is caught.
  The mode \<open>0o666\<close> is 438.
\<close>

definition open_socket :: "daemon \<Rightarrow> (abrupt + unit) \<times> daemon" where
  "open_socket d =
     (case (if os_path_exists (socket_file d) d then os_unlink (socket_file d) d else Inr d) of
        Inl e \<Rightarrow> (Inl (Raised e), d)
      | Inr d1 \<Rightarrow>
          (case socket_bind (socket_file d1) (emit SocketCreated d1) of
             Inl e \<Rightarrow> (Inl (Raised e), emit SocketCreated d1)
           | Inr d2 \<Rightarrow>
               (Inr (),
                log_message_json (Text (''Listening on socket '' @ socket_file d2)) 2 ''info''
                  (emit (Listen 5) (emit (Chmod (socket_file d2) 438) d2)))))"

definition main :: "cli \<Rightarrow> start_env \<Rightarrow> conn_env list \<Rightarrow> daemon \<Rightarrow> abrupt option \<times> daemon" where
  "main c env conns d =
     (case parse_arguments c of
        Inl a \<Rightarrow> (Some a, d)
      | Inr parsed \<Rightarrow>
          (let d1 = d\<lparr>loglevel := args_loglevel parsed\<rparr>;
               hwversion = args_hwversion parsed
           in case acquire_cs hwversion (on_cs_pin env) d1 of
                (Inl a, d2) \<Rightarrow> (Some a, d2)
              | (Inr adccs, d2) \<Rightarrow>
                  (case init_adc adccs env
                          (log_message_json
                             (Text (''Starting ADC daemon for hardware version '' @ hwversion)) 2
                             ''info'' d2) of
                     (Inl a, d3) \<Rightarrow> (Some a, d3)
                   | (Inr u, d3) \<Rightarrow>
                       (case open_socket d3 of
                          (Inl a, d4) \<Rightarrow> (Some a, d4)
                        | (Inr u, d4) \<Rightarrow> accept_loop conns d4))))"

subsection \<open>Reading a trace\<close>

fun replies :: "event list \<Rightarrow> string list" where
  "replies [] = []"
| "replies (SendAll r # es) = r # replies es"
| "replies (e # es) = replies es"

fun voltage_reads :: "event list \<Rightarrow> nat list" where
  "voltage_reads [] = []"
| "voltage_reads (VoltageRead p # es) = p # voltage_reads es"
| "voltage_reads (e # es) = voltage_reads es"

fun log_records :: "event list \<Rightarrow> (logmsg \<times> int \<times> string) list" where
  "log_records [] = []"
| "log_records (Logged m l s # es) = (m, l, s) # log_records es"
| "log_records (e # es) = log_records es"

fun socket_events :: "event list \<Rightarrow> event list" where
  "socket_events [] = []"
| "socket_events (SocketCreated # es) = SocketCreated # socket_events es"
| "socket_events (Bound p # es) = Bound p # socket_events es"
| "socket_events (Listen n # es) = Listen n # socket_events es"
| "socket_events (e # es) = socket_events es"

text \<open>What a step added to the trace.\<close>

definition since :: "daemon \<Rightarrow> daemon \<Rightarrow> event list" where
  "since d d' = drop (length (trace d)) (trace d')"

fun interrupted :: "'a answer \<Rightarrow> bool" where
  "interrupted (Interrupted sig) = True"
| "interrupted (Returns v) = False"
| "interrupted (Fails e) = False"

text \<open>A state as a successful start leaves it, and a connection that sends \<open>data\<close>.\<close>

definition serving_state :: daemon where
  "serving_state =
     \<lparr>loglevel = 3, socket_file = ''/tmp/adc-daemon.sock'', channels = mcp_pins,
      fs = [''/tmp/adc-daemon.sock'' \<mapsto> SocketNode], trace = []\<rparr>"

definition request :: "bytes \<Rightarrow> pyfloat \<Rightarrow> conn_env" where
  "request data v =
     \<lparr>on_accept = Returns (), on_recv = Returns data, on_read = Returns v,
      on_send = Returns ()\<rparr>"

text \<open>The value of a run of ASCII digits read after \<open>acc\<close>.\<close>

definition digits_value :: "nat \<Rightarrow> nat list \<Rightarrow> nat" where
  "digits_value acc ds = foldl (\<lambda>a c. a * 10 + (c - 48)) acc ds"

text \<open>A connection in which no signal arrives.\<close>

definition no_signal :: "conn_env \<Rightarrow> bool" where
  "no_signal env \<longleftrightarrow>
     \<not> interrupted (on_accept env) \<and> \<not> interrupted (on_recv env)
     \<and> \<not> interrupted (on_read env) \<and> \<not> interrupted (on_send env)"

text \<open>
  \<open>later d d'\<close>: the state \<open>d'\<close> has the globals of \<open>d\<close> and a trace that goes on from
  the trace of \<open>d\<close>.
\<close>

definition later :: "daemon \<Rightarrow> daemon \<Rightarrow> bool" where
  "later d d' \<longleftrightarrow>
     channels d' = channels d \<and> socket_file d' = socket_file d \<and> loglevel d' = loglevel d
     \<and> prefix (trace d) (trace d')"

text \<open>The record the handlers of unexpected exceptions write, when the threshold lets it through.\<close>

definition error_log :: "daemon \<Rightarrow> pyerr \<Rightarrow> event list" where
  "error_log d e =
     (if 0 \<le> loglevel d then [Logged (ErrorDict (str_exc e)) 0 ''exception''] else [])"

text \<open>A connection whose peer is gone when the reply is sent.\<close>

definition broken_pipe :: conn_env where
  "broken_pipe =
     \<lparr>on_accept = Returns (), on_recv = Returns ''2'', on_read = Returns (Finite (33 / 20)),
      on_send = Fails (OtherException ''[Errno 32] Broken pipe'')\<rparr>"


text \<open>The first call under the \<open>try\<close> of the hardware initialisation that raises, if one does.\<close>

definition init_failure :: "start_env \<Rightarrow> pyerr option" where
  "init_failure env =
     (case on_spi env of
        Fails e \<Rightarrow> Some e
      | Interrupted sig \<Rightarrow> None
      | Returns u \<Rightarrow>
          (case on_mcp env of
             Fails e \<Rightarrow> Some e
           | Interrupted sig \<Rightarrow> None
           | Returns u \<Rightarrow>
               (case on_analog_in env of
                  Fails e \<Rightarrow> Some e
                | Interrupted sig \<Rightarrow> None
                | Returns u \<Rightarrow> None)))"

text \<open>A start in which every hardware call returns, and a command line that names a version.\<close>

definition good_start :: start_env where
  "good_start =
     \<lparr>on_cs_pin = Returns (), on_spi = Returns (), on_mcp = Returns (),
      on_analog_in = Returns ()\<rparr>"

definition cli_for :: "string \<Rightarrow> cli" where
  "cli_for v = \<lparr>opt_loglevel = None, opt_hwversion = Some v\<rparr>"

section \<open>Properties\<close>

subsection \<open>Traces\<close>

lemma replies_append: "replies (xs @ ys) = replies xs @ replies ys"
  by (induction xs rule: replies.induct) simp_all

lemma voltage_reads_append: "voltage_reads (xs @ ys) = voltage_reads xs @ voltage_reads ys"
  by (induction xs rule: voltage_reads.induct) simp_all

lemma log_records_append: "log_records (xs @ ys) = log_records xs @ log_records ys"
  by (induction xs rule: log_records.induct) simp_all

lemma socket_events_append: "socket_events (xs @ ys) = socket_events xs @ socket_events ys"
  by (induction xs rule: socket_events.induct) simp_all

lemma since_emit_self: "since d (emit e d) = [e]"
  by (simp add: since_def emit_def)

lemmas step_defs = loop_iteration_def serve_connection_def call_def compute_response_def
  try_body_def send_all_def read_voltage_def log_message_json_def emit_def since_def

lemmas codec_defs = parse_channel_def strip_def py_isspace_def py_int_def to_ascii_def
  PyLong_FromString_def long_from_string_base_def c_isspace_def c_isdigit_def byte_in_def
  low6_def todecimal_def decimal_zeros_def

lemmas format_defs = format_4f_def fixed4_def round_half_even_def pad4_def str_int_def
  digit_char_def Let_def

subsection \<open>The codec\<close>

lemma py_int_Nil: "py_int [] = None"
  by (simp add: py_int_def to_ascii_def PyLong_FromString_def long_from_string_base_def)

lemma parse_channel_Nil: "parse_channel [] = None"
  by (simp add: parse_channel_def strip_def py_int_Nil)

lemma parse_channel_blank:
  "decode_utf8 data = Some text \<Longrightarrow> strip text = [] \<Longrightarrow> parse_channel data = None"
  by (simp add: parse_channel_def py_int_Nil)

lemma PyLong_single_digit: "k < 10 \<Longrightarrow> PyLong_FromString [48 + k] = Some (int k)"
  by (simp add: PyLong_FromString_def long_from_string_base_def c_isspace_def c_isdigit_def)

lemma todecimal_run:
  assumes "z \<in> set decimal_zeros" and "k < 10"
  shows "todecimal (z + k) = Some k \<and> \<not> py_isspace (z + k) \<and> (z + k < 128 \<longrightarrow> z = 48)"
proof -
  from assms show ?thesis
    unfolding decimal_zeros_def set_simps insert_iff empty_iff
    apply -
    apply (elim disjE; simp add: todecimal_def decimal_zeros_def py_isspace_def)
    done
qed

text \<open>Every decimal digit of the table, ASCII or not, is read by \<open>int\<close> as its value.\<close>

lemma decimal_digit_parses:
  assumes "z \<in> set decimal_zeros" and "k < 10"
  shows "py_int [z + k] = Some (int k)"
proof (cases "z = 48")
  case True
  with assms(2) show ?thesis
    by (simp add: py_int_def to_ascii_def PyLong_single_digit)
next
  case False
  with todecimal_run [OF assms] have "\<not> z + k < 128" and "todecimal (z + k) = Some k"
    and "\<not> py_isspace (z + k)" by auto
  then show ?thesis
    using assms(2) by (simp add: py_int_def to_ascii_def PyLong_single_digit)
qed

subsection \<open>The voltage format\<close>

lemma digit_char_is_digit: "d < 10 \<Longrightarrow> is_ascii_digit (digit_char d)"
proof -
  assume "d < 10"
  then have "d \<in> {0, 1, 2, 3, 4, 5, 6, 7, 8, 9}" by auto
  then show ?thesis
    by (auto simp: digit_char_def is_ascii_digit_def)
qed

lemma str_nat_digits: "list_all is_ascii_digit (str_nat n)"
proof (induction n rule: str_nat.induct)
  case (1 n)
  show ?case
  proof (cases "n < 10")
    case True
    then show ?thesis by (simp add: str_nat.simps [of n] digit_char_is_digit)
  next
    case False
    with 1 show ?thesis by (simp add: str_nat.simps [of n] digit_char_is_digit)
  qed
qed

lemma str_nat_not_Nil: "str_nat n \<noteq> []"
  by (simp add: str_nat.simps [of n])

lemma dot_not_digit: "\<not> is_ascii_digit CHR ''.''"
  by (simp add: is_ascii_digit_def)

lemma takeWhile_digits:
  "list_all is_ascii_digit ds \<Longrightarrow> takeWhile is_ascii_digit (ds @ CHR ''.'' # f) = ds"
  by (induction ds) (simp_all add: dot_not_digit)

lemma dropWhile_digits:
  "list_all is_ascii_digit ds \<Longrightarrow> dropWhile is_ascii_digit (ds @ CHR ''.'' # f) = CHR ''.'' # f"
  by (induction ds) (simp_all add: dot_not_digit)

lemma pad4_digits: "length (pad4 k) = 4 \<and> list_all is_ascii_digit (pad4 k)"
  by (simp add: pad4_def digit_char_is_digit)

lemma voltage_format_fixed4: "voltage_format (fixed4 q)"
  by (simp add: voltage_format_def fixed4_def Let_def takeWhile_digits dropWhile_digits
      str_nat_digits str_nat_not_Nil pad4_digits)

lemma voltage_format_nonneg: "0 \<le> q \<Longrightarrow> voltage_format (format_4f (Finite q))"
  by (simp add: format_4f_def voltage_format_fixed4)

lemma round_half_even_near: "\<bar>of_int (round_half_even x) - x\<bar> \<le> 1 / 2"
proof -
  have "of_int \<lfloor>x\<rfloor> \<le> x" and "x < of_int \<lfloor>x\<rfloor> + 1"
    by linarith+
  then show ?thesis
    unfolding round_half_even_def Let_def by (auto simp: abs_le_iff)
qed

lemma round_half_even_nonneg: "0 \<le> x \<Longrightarrow> 0 \<le> round_half_even x"
  unfolding round_half_even_def Let_def by auto

lemma fixed4_accuracy:
  assumes "0 \<le> q"
  shows "\<exists>n. fixed4 q = str_nat (n div 10000) @ ''.'' @ pad4 (n mod 10000)
           \<and> \<bar>of_nat n / 10000 - q\<bar> \<le> 1 / 20000"
proof -
  define r where "r = round_half_even (q * 10000)"
  from assms have "0 \<le> q * 10000" by simp
  then have "0 \<le> r" unfolding r_def by (rule round_half_even_nonneg)
  then have n: "(of_nat (nat r) :: rat) = of_int r" by simp
  have "\<bar>of_int r - q * 10000\<bar> \<le> 1 / 2"
    unfolding r_def by (rule round_half_even_near)
  then have "\<bar>of_int r / 10000 - q\<bar> \<le> 1 / 20000"
    by (simp add: abs_le_iff field_simps)
  with n have "\<bar>of_nat (nat r) / 10000 - q\<bar> \<le> 1 / 20000" by simp
  moreover have "fixed4 q = str_nat (nat r div 10000) @ ''.'' @ pad4 (nat r mod 10000)"
    by (simp add: fixed4_def r_def Let_def)
  ultimately show ?thesis by blast
qed

subsection \<open>The decimal string of an integer\<close>

lemma of_char_digit_char: "k < 10 \<Longrightarrow> (of_char (digit_char k) :: nat) = 48 + k"
proof -
  assume "k < 10"
  then have "k = 0 \<or> k = 1 \<or> k = 2 \<or> k = 3 \<or> k = 4 \<or> k = 5 \<or> k = 6 \<or> k = 7 \<or> k = 8 \<or> k = 9"
    by auto
  then show ?thesis
    by (elim disjE; hypsubst; simp add: digit_char_def)
qed

lemma scan_digits_run:
  assumes "list_all c_isdigit ds"
  shows "scan_digits prev acc (ds @ r)
           = scan_digits (if ds = [] then prev else last ds) (digits_value acc ds) r"
  using assms
proof (induction ds arbitrary: prev acc)
  case Nil
  then show ?case by (simp add: digits_value_def)
next
  case (Cons c cs)
  then show ?case by (simp add: digits_value_def)
qed

lemma str_nat_codes:
  "list_all c_isdigit (map of_char (str_nat m)) \<and> digits_value 0 (map of_char (str_nat m)) = m"
proof (induction m rule: str_nat.induct)
  case (1 n)
  show ?case
  proof (cases "n < 10")
    case True
    then show ?thesis
      by (simp add: str_nat.simps [of n] of_char_digit_char c_isdigit_def digits_value_def)
  next
    case False
    with 1 have ih: "list_all c_isdigit (map of_char (str_nat (n div 10)))"
      "digits_value 0 (map of_char (str_nat (n div 10))) = n div 10" by simp_all
    have d: "(of_char (digit_char (n mod 10)) :: nat) = 48 + n mod 10"
      by (simp add: of_char_digit_char)
    have "n mod 10 < 10" by simp
    then have dd: "c_isdigit (48 + n mod 10)"
      unfolding c_isdigit_def by linarith
    from False ih d dd show ?thesis
      by (simp add: str_nat.simps [of n] digits_value_def)
  qed
qed

lemma str_nat_scan: "scan_digits 0 0 (map of_char (str_nat m)) = Some (m, [])"
proof -
  let ?ds = "map of_char (str_nat m) :: nat list"
  have ne: "?ds \<noteq> []" by (simp add: str_nat_not_Nil)
  have dg: "list_all c_isdigit ?ds" by (simp add: str_nat_codes)
  then have "c_isdigit (last ?ds)"
    using ne last_in_set [of ?ds] by (auto simp: list_all_iff)
  then have l: "last ?ds \<noteq> 0x5F" by (auto simp: c_isdigit_def)
  from scan_digits_run [OF dg, of 0 0 "[]"] ne l show ?thesis
    by (simp add: str_nat_codes)
qed

lemma long_from_string_base_scan:
  assumes "s \<noteq> []" and "hd s \<noteq> 0x5F" and "scan_digits 0 0 s = Some (v, [])"
  shows "long_from_string_base s = Some (v, [])"
  using assms by (cases s) (simp_all add: long_from_string_base_def del: scan_digits.simps)

lemma str_nat_base: "long_from_string_base (map of_char (str_nat m)) = Some (m, [])"
proof -
  let ?ds = "map of_char (str_nat m) :: nat list"
  have ne: "?ds \<noteq> []" by (simp add: str_nat_not_Nil)
  have "list_all c_isdigit ?ds" by (simp add: str_nat_codes)
  with ne have "c_isdigit (hd ?ds)" by (cases ?ds) simp_all
  then have h: "hd ?ds \<noteq> 0x5F" by (auto simp: c_isdigit_def)
  from ne h str_nat_scan show ?thesis by (rule long_from_string_base_scan)
qed

lemma digit_not_space: "c_isdigit c \<Longrightarrow> \<not> c_isspace c \<and> \<not> py_isspace c \<and> c < 128 \<and> c \<noteq> 0x2B \<and> c \<noteq> 0x2D"
  by (auto simp: c_isdigit_def c_isspace_def py_isspace_def)

lemma PyLong_str_nat: "PyLong_FromString (map of_char (str_nat m)) = Some (int m)"
proof -
  let ?ds = "map of_char (str_nat m) :: nat list"
  have ne: "?ds \<noteq> []" by (simp add: str_nat_not_Nil)
  have "list_all c_isdigit ?ds" by (simp add: str_nat_codes)
  with ne obtain c cs where cs: "?ds = c # cs" and "c_isdigit c" by (cases ?ds) simp_all
  then have "\<not> c_isspace c \<and> c \<noteq> 0x2B \<and> c \<noteq> 0x2D" using digit_not_space by blast
  with cs str_nat_base [of m] show ?thesis
    by (simp add: PyLong_FromString_def)
qed

lemma PyLong_minus_str_nat:
  "PyLong_FromString (0x2D # map of_char (str_nat m)) = Some (- int m)"
  using str_nat_base [of m] by (simp add: PyLong_FromString_def c_isspace_def)

lemma str_nat_ascii: "list_all (\<lambda>c. c < 128) (map of_char (str_nat m) :: nat list)"
  using str_nat_codes [of m] digit_not_space by (auto simp: list_all_iff)

lemma py_int_str_int: "py_int (map of_char (str_int i)) = Some i"
proof (cases "i < 0")
  case True
  then show ?thesis
    using str_nat_ascii [of "nat (- i)"]
    by (simp add: str_int_def py_int_def to_ascii_def PyLong_minus_str_nat)
next
  case False
  then show ?thesis
    using str_nat_ascii [of "nat i"]
    by (simp add: str_int_def py_int_def to_ascii_def PyLong_str_nat)
qed

lemma decode_utf8_ascii:
  "list_all (\<lambda>c. (of_char c :: nat) < 128) s \<Longrightarrow> decode_utf8 s = Some (map of_char s)"
  by (induction s) simp_all

lemma strip_id:
  assumes "s \<noteq> []" and "\<not> py_isspace (hd s)" and "\<not> py_isspace (last s)"
  shows "strip s = s"
proof -
  from assms(1,2) have a: "dropWhile py_isspace s = s" by (cases s) simp_all
  from assms(1,3) have "dropWhile py_isspace (rev s) = rev s"
    by (cases "rev s") (simp_all add: hd_rev [symmetric])
  with a show ?thesis by (simp add: strip_def)
qed

lemma str_int_codes:
  "map of_char (str_int i) \<noteq> ([] :: nat list)
   \<and> \<not> py_isspace (hd (map of_char (str_int i)))
   \<and> \<not> py_isspace (last (map of_char (str_int i)))
   \<and> list_all (\<lambda>c. (of_char c :: nat) < 128) (str_int i)"
proof -
  have dg: "\<And>m. list_all c_isdigit (map of_char (str_nat m))" by (simp add: str_nat_codes)
  have hd_ok: "\<not> py_isspace (hd (map of_char (str_nat m)))" for m
    using dg [of m] str_nat_not_Nil [of m] digit_not_space
    by (cases "str_nat m") auto
  have last_ok: "\<not> py_isspace (last (map of_char (str_nat m)))" for m
  proof -
    have "last (map of_char (str_nat m)) \<in> set (map of_char (str_nat m) :: nat list)"
      using str_nat_not_Nil [of m] by (intro last_in_set) simp
    with dg [of m] digit_not_space show ?thesis by (auto simp: list_all_iff)
  qed
  have asc: "list_all (\<lambda>c. (of_char c :: nat) < 128) (str_nat m)" for m
    using str_nat_ascii [of m] by (simp add: list_all_iff)
  show ?thesis
    using hd_ok last_ok asc str_nat_not_Nil
    by (auto simp: str_int_def py_isspace_def last_map)
qed

lemma parse_channel_str_int: "parse_channel (str_int i) = Some i"
proof -
  from str_int_codes [of i] have "decode_utf8 (str_int i) = Some (map of_char (str_int i))"
    by (simp add: decode_utf8_ascii)
  moreover from str_int_codes [of i] have "strip (map of_char (str_int i)) = map of_char (str_int i)"
    by (intro strip_id) simp_all
  ultimately show ?thesis by (simp add: parse_channel_def py_int_str_int)
qed

lemma parse_channel_str:
  assumes "decode_utf8 data = Some text" and "strip text = map of_char (str_int i)"
  shows "parse_channel data = Some i"
  using assms by (simp add: parse_channel_def py_int_str_int)

subsection \<open>One turn of the loop, by the kind of payload\<close>

lemma empty_step:
  assumes "on_accept env = Returns ()" and "on_recv env = Returns []"
  shows "loop_iteration env d = (None, emit ConnClosed d)"
  using assms by (simp add: loop_iteration_def serve_connection_def call_def)

lemma invalid_step:
  assumes "on_accept env = Returns ()" and "on_recv env = Returns received"
    and "take 1024 received \<noteq> []"
    and "parse_channel (take 1024 received) = None"
    and "\<not> interrupted (on_send env)"
  shows "replies (since d (snd (loop_iteration env d))) = [''ERROR: Invalid channel format'']
       \<and> voltage_reads (since d (snd (loop_iteration env d))) = []
       \<and> fst (loop_iteration env d) = None"
  using assms by (cases "on_send env") (auto simp: step_defs)

lemma range_step:
  assumes "on_accept env = Returns ()" and "on_recv env = Returns received"
    and "parse_channel (take 1024 received) = Some channel"
    and "channel < 0 \<or> 7 < channel"
    and "\<not> interrupted (on_send env)"
  shows "replies (since d (snd (loop_iteration env d))) = [''ERROR: Channel must be 0-7'']
       \<and> voltage_reads (since d (snd (loop_iteration env d))) = []
       \<and> fst (loop_iteration env d) = None"
proof -
  from assms(3) have ne: "take 1024 received \<noteq> []"
    using parse_channel_Nil by auto
  show ?thesis using assms ne
    by (cases "on_send env") (auto simp: step_defs)
qed

lemma valid_channel_step:
  assumes "on_accept env = Returns ()" and "on_recv env = Returns received"
    and "parse_channel (take 1024 received) = Some channel"
    and "0 \<le> channel" and "channel \<le> 7"
    and "on_read env = Returns v"
    and "\<not> interrupted (on_send env)"
    and "channels d = mcp_pins"
  shows "replies (since d (snd (loop_iteration env d))) = [format_4f v]
       \<and> voltage_reads (since d (snd (loop_iteration env d))) = [nat channel]
       \<and> fst (loop_iteration env d) = None"
proof -
  from assms(3) have ne: "take 1024 received \<noteq> []"
    using parse_channel_Nil by auto
  from assms(4,5) have "channel \<in> {0, 1, 2, 3, 4, 5, 6, 7}" by auto
  then have pin: "nat channel < length mcp_pins \<and> mcp_pins ! nat channel = nat channel"
    by (auto simp: mcp_pins_def)
  show ?thesis using assms ne pin
    by (cases "on_send env") (auto simp: step_defs Let_def)
qed

subsection \<open>Replies to requests\<close>

text \<open>
  C1.  For every channel index \<open>i\<close> from 0 to 7, a request whose payload decodes and strips
  to the decimal string of \<open>i\<close> is answered with the sampled voltage in fixed notation:
  the reply matches \<^verbatim>\<open>^\d+\.\d{4}$\<close>, so it has exactly four fraction digits and no
  trailing newline, it is the decimal \<open>n / 10000\<close> nearest to the sample, and the turn reads
  the voltage of exactly one channel, channel \<open>i\<close>.  The converter delivers a finite voltage
  that is not negative (a count between 0 and 65535 scaled by the reference voltage), which
  is what the sample is taken to be here; the daemon has started, so that its channels are
  the eight analog inputs.
\<close>

theorem valid_channel_reply:
  assumes "0 \<le> i" and "i \<le> 7"
    and "on_accept env = Returns ()" and "on_recv env = Returns received"
    and "decode_utf8 (take 1024 received) = Some text"
    and "strip text = map of_char (str_int i)"
    and "on_read env = Returns (Finite v)" and "0 \<le> v"
    and "\<not> interrupted (on_send env)"
    and "channels d = mcp_pins"
  shows "replies (since d (snd (loop_iteration env d))) = [format_4f (Finite v)]
       \<and> voltage_format (format_4f (Finite v))
       \<and> (\<exists>n. format_4f (Finite v) = str_nat (n div 10000) @ ''.'' @ pad4 (n mod 10000)
              \<and> \<bar>of_nat n / 10000 - v\<bar> \<le> 1 / 20000)
       \<and> voltage_reads (since d (snd (loop_iteration env d))) = [nat i]"
proof -
  have p: "parse_channel (take 1024 received) = Some i"
    using assms(5,6) by (rule parse_channel_str)
  have fmt: "format_4f (Finite v) = fixed4 v"
    using assms(8) by (simp add: format_4f_def)
  from valid_channel_step [OF assms(3,4) p assms(1,2,7,9,10)]
  show ?thesis
    using voltage_format_nonneg [OF assms(8)] fixed4_accuracy [OF assms(8)] fmt by simp
qed

theorem valid_channel_reply_witness:
  "decode_utf8 (take 1024 ''2'') = Some [50] \<and> strip [50] = map of_char (str_int 2)
   \<and> replies (since serving_state
        (snd (loop_iteration (request ''2'' (Finite (33 / 20))) serving_state))) = [''1.6500'']
   \<and> voltage_format ''1.6500''
   \<and> voltage_reads (since serving_state
        (snd (loop_iteration (request ''2'' (Finite (33 / 20))) serving_state))) = [2]"
proof -
  have h1: "decode_utf8 (take 1024 ''2'') = Some [50]" by simp
  have h2: "strip [50] = map of_char (str_int 2)"
    by (simp add: strip_def py_isspace_def str_int_def str_nat.simps digit_char_def)
  have f: "format_4f (Finite (33 / 20)) = ''1.6500''"
    by (simp add: format_defs str_nat.simps)
  show ?thesis
    using valid_channel_reply [of 2 "request ''2'' (Finite (33 / 20))" "''2''" "[50]"
        "33 / 20" serving_state] h1 h2 f
    by (simp add: request_def serving_state_def)
qed

text \<open>
  C2.  For every payload that parses to an integer outside 0 to 7, negative or 8 and above,
  the reply is exactly \<open>ERROR: Channel must be 0-7\<close>; no voltage is read and no other
  reply is sent.  Every integer is reached: its decimal string parses to it.
\<close>

theorem out_of_range_reply:
  assumes "on_accept env = Returns ()" and "on_recv env = Returns received"
    and "parse_channel (take 1024 received) = Some channel"
    and "channel < 0 \<or> 7 < channel"
    and "\<not> interrupted (on_send env)"
  shows "replies (since d (snd (loop_iteration env d))) = [''ERROR: Channel must be 0-7'']
       \<and> voltage_reads (since d (snd (loop_iteration env d))) = []
       \<and> parse_channel (str_int channel) = Some channel"
  using range_step [OF assms] by (simp add: parse_channel_str_int)

theorem out_of_range_reply_witness:
  "parse_channel (take 1024 ''-1'') = Some (- 1)
   \<and> replies (since serving_state (snd (loop_iteration (request ''-1'' NaN) serving_state)))
       = [''ERROR: Channel must be 0-7'']
   \<and> voltage_reads (since serving_state (snd (loop_iteration (request ''-1'' NaN) serving_state)))
       = []"
proof -
  have p: "parse_channel (take 1024 ''-1'') = Some (- 1)"
    by (simp add: codec_defs)
  show ?thesis
    using out_of_range_reply [of "request ''-1'' NaN" "''-1''" "- 1" serving_state] p
    by (simp add: request_def)
qed

text \<open>
  C3.  For every payload that is not empty and that does not parse as a base-10 integer
  (it does not decode, or its stripped text is not a literal of \<open>int\<close>), the reply is
  exactly \<open>ERROR: Invalid channel format\<close>.
\<close>

theorem invalid_format_reply:
  assumes "on_accept env = Returns ()" and "on_recv env = Returns received"
    and "take 1024 received \<noteq> []"
    and "parse_channel (take 1024 received) = None"
    and "\<not> interrupted (on_send env)"
  shows "replies (since d (snd (loop_iteration env d))) = [''ERROR: Invalid channel format'']"
  using invalid_step [OF assms] by simp

theorem invalid_format_reply_witness:
  "parse_channel (take 1024 ''3.5'') = None
   \<and> replies (since serving_state (snd (loop_iteration (request ''3.5'' NaN) serving_state)))
       = [''ERROR: Invalid channel format'']
   \<and> replies (since serving_state (snd (loop_iteration (request ''abc'' NaN) serving_state)))
       = [''ERROR: Invalid channel format'']
   \<and> replies (since serving_state (snd (loop_iteration (request [CHR 0xFF] NaN) serving_state)))
       = [''ERROR: Invalid channel format'']"
proof -
  have p: "parse_channel (take 1024 ''3.5'') = None" "parse_channel (take 1024 ''abc'') = None"
    "parse_channel (take 1024 [CHR 0xFF]) = None"
    by (simp_all add: codec_defs)
  show ?thesis
    using invalid_format_reply [of "request ''3.5'' NaN" "''3.5''" serving_state]
      invalid_format_reply [of "request ''abc'' NaN" "''abc''" serving_state]
      invalid_format_reply [of "request [CHR 0xFF] NaN" "[CHR 0xFF]" serving_state] p
    by (simp add: request_def)
qed

text \<open>
  C4, as stated, says that a payload which is empty after trimming gets no reply.  A
  payload of one blank is empty after trimming and is answered with the format error.
\<close>

theorem blank_payload_counterexample:
  "decode_utf8 '' '' = Some [32] \<and> strip [32] = []
   \<and> replies (since serving_state (snd (loop_iteration (request '' '' NaN) serving_state)))
       = [''ERROR: Invalid channel format'']"
proof -
  have d: "decode_utf8 '' '' = Some [32]" by simp
  have s: "strip [32] = []" by (simp add: strip_def py_isspace_def)
  have p: "parse_channel (take 1024 '' '') = None"
    using parse_channel_blank [OF d s] by simp
  show ?thesis
    using invalid_step [of "request '' '' NaN" "'' ''" serving_state] p d s
    by (simp add: request_def)
qed

text \<open>
  C4, amended.  For every request of zero bytes the connection is closed with no reply,
  nothing else happens in that turn, and the loop goes on.  A payload that is not empty
  and is empty after trimming goes the other way: it is answered with
  \<open>ERROR: Invalid channel format\<close>, and the loop goes on as well.
\<close>

theorem empty_payload_dropped:
  assumes "on_accept env = Returns ()" and "on_recv env = Returns received"
  shows "(received = [] \<longrightarrow>
            since d (snd (loop_iteration env d)) = [ConnClosed]
            \<and> fst (loop_iteration env d) = None)
       \<and> (received \<noteq> [] \<and> decode_utf8 (take 1024 received) = Some text \<and> strip text = []
            \<and> \<not> interrupted (on_send env) \<longrightarrow>
            replies (since d (snd (loop_iteration env d))) = [''ERROR: Invalid channel format'']
            \<and> fst (loop_iteration env d) = None)"
proof -
  have dropped: "since d (snd (loop_iteration env d)) = [ConnClosed]
      \<and> fst (loop_iteration env d) = None" if "received = []"
  proof -
    from that assms have "loop_iteration env d = (None, emit ConnClosed d)"
      by (simp add: empty_step)
    then show ?thesis by (simp add: since_emit_self)
  qed
  have answered: "replies (since d (snd (loop_iteration env d))) = [''ERROR: Invalid channel format'']
      \<and> fst (loop_iteration env d) = None"
    if a: "received \<noteq> [] \<and> decode_utf8 (take 1024 received) = Some text \<and> strip text = []
           \<and> \<not> interrupted (on_send env)"
  proof -
    from a have ne: "take 1024 received \<noteq> []" by simp
    from a have "parse_channel (take 1024 received) = None"
      by (simp add: parse_channel_blank)
    from invalid_step [OF assms ne this] a show ?thesis by simp
  qed
  from dropped answered show ?thesis by blast
qed

theorem empty_payload_dropped_witness:
  "since serving_state (snd (loop_iteration (request [] NaN) serving_state)) = [ConnClosed]
   \<and> fst (loop_iteration (request [] NaN) serving_state) = None
   \<and> replies (since serving_state (snd (loop_iteration (request ''  '' NaN) serving_state)))
       = [''ERROR: Invalid channel format'']"
proof -
  have d: "decode_utf8 (take 1024 ''  '') = Some [32, 32]" by simp
  have s: "strip [32, 32] = []" by (simp add: strip_def py_isspace_def)
  show ?thesis
    using empty_payload_dropped [of "request [] NaN" "[]" serving_state]
      empty_payload_dropped [of "request ''  '' NaN" "''  ''" serving_state "[32, 32]"] d s
    by (simp add: request_def)
qed

subsection \<open>Later states\<close>

lemma later_refl: "later d d"
  by (simp add: later_def)

lemma later_trans: "later a b \<Longrightarrow> later b c \<Longrightarrow> later a c"
  by (auto simp: later_def)

lemma later_emit: "later d d' \<Longrightarrow> later d (emit e d')"
  by (auto simp: later_def emit_def prefix_def)

lemma later_log: "later d d' \<Longrightarrow> later d (log_message_json m l s d')"
  by (auto simp: later_def log_message_json_def emit_def prefix_def)

lemma signal_handler_later: "signal_handler sig d = (a, d') \<Longrightarrow> later d d'"
  by (auto simp: signal_handler_def log_message_json_def emit_def os_path_exists_def
      os_unlink_def Let_def later_def split: option.splits node.splits if_splits)

lemma call_later: "call ans d = (r, d') \<Longrightarrow> later d d'"
proof (cases ans)
  case (Interrupted sig)
  assume "call ans d = (r, d')"
  with Interrupted obtain a where "signal_handler sig d = (a, d')"
    by (auto simp: call_def split: prod.splits)
  then show ?thesis by (rule signal_handler_later)
qed (auto simp: call_def later_refl)

lemma read_voltage_later: "read_voltage i ans d = (r, d') \<Longrightarrow> later d d'"
  by (cases ans)
     (auto simp: read_voltage_def later_refl
       dest: call_later intro: later_trans [OF later_emit [OF later_refl]] split: if_splits)

lemma try_body_later: "try_body data ans d = (r, d') \<Longrightarrow> later d d'"
  by (auto simp: try_body_def Let_def later_refl
      intro!: later_log
      dest!: read_voltage_later
      intro: later_trans [OF later_log [OF later_refl]]
      split: option.splits if_splits prod.splits sum.splits)

lemma compute_response_later: "compute_response data ans d = (r, d') \<Longrightarrow> later d d'"
  by (auto simp: compute_response_def dest: try_body_later
      split: prod.splits sum.splits abrupt.splits pyerr.splits)

lemma send_all_later: "send_all response ans d = (r, d') \<Longrightarrow> later d d'"
  by (cases ans)
     (auto simp: send_all_def dest: call_later intro: later_trans [OF later_emit [OF later_refl]])

lemma serve_connection_later: "serve_connection env d = (r, d') \<Longrightarrow> later d d'"
  by (auto simp: serve_connection_def Let_def
      intro!: later_emit
      dest!: call_later compute_response_later send_all_later
      intro: later_trans
      split: prod.splits sum.splits if_splits)

lemma loop_iteration_later: "loop_iteration env d = (r, d') \<Longrightarrow> later d d'"
  by (auto simp: loop_iteration_def
      intro!: later_emit later_log
      dest!: call_later serve_connection_later
      intro: later_trans
      split: prod.splits sum.splits option.splits abrupt.splits)

lemma accept_loop_later: "accept_loop envs d = (r, d') \<Longrightarrow> later d d'"
proof (induction envs arbitrary: d)
  case Nil
  then show ?case by (simp add: later_refl)
next
  case (Cons env envs)
  obtain r1 d1 where step: "loop_iteration env d = (r1, d1)" by (cases "loop_iteration env d")
  then have g: "later d d1" by (rule loop_iteration_later)
  show ?case
  proof (cases r1)
    case None
    with Cons.prems step have "accept_loop envs d1 = (r, d')" by simp
    then have "later d1 d'" by (rule Cons.IH)
    with g show ?thesis by (rule later_trans)
  next
    case (Some a)
    with Cons.prems step have "d' = d1" by simp
    with g show ?thesis by simp
  qed
qed

text \<open>Without a signal nothing leaves the process.\<close>

lemma call_no_signal:
  "\<not> interrupted ans \<Longrightarrow> call ans d = (r, d') \<Longrightarrow> r \<noteq> Inl (SystemExit n)"
  by (cases ans) (auto simp: call_def)

lemma compute_response_no_signal:
  assumes "\<not> interrupted ans"
  shows "\<exists>response d'. compute_response data ans d = (Inr response, d')"
  using assms
  by (cases ans)
     (auto simp: compute_response_def try_body_def read_voltage_def call_def Let_def
       split: option.splits pyerr.splits)

lemma serve_connection_no_signal:
  assumes "\<not> interrupted (on_recv env)" and "\<not> interrupted (on_read env)"
    and "\<not> interrupted (on_send env)"
  shows "fst (serve_connection env d) \<noteq> Some (SystemExit n)"
proof -
  show ?thesis
  proof (cases "on_recv env")
    case (Returns received)
    show ?thesis
    proof (cases "take 1024 received = []")
      case True
      with Returns show ?thesis by (simp add: serve_connection_def call_def)
    next
      case False
      obtain response d2 where
        r: "compute_response (take 1024 received) (on_read env) d = (Inr response, d2)"
        using compute_response_no_signal [OF assms(2)] by blast
      with Returns False assms(3) show ?thesis
        by (cases "on_send env") (auto simp: serve_connection_def call_def send_all_def)
    qed
  next
    case (Fails e)
    then show ?thesis by (simp add: serve_connection_def call_def)
  next
    case (Interrupted sig)
    with assms(1) show ?thesis by simp
  qed
qed

lemma no_signal_continues:
  assumes "no_signal env"
  shows "fst (loop_iteration env d) = None"
proof (cases "on_accept env")
  case (Returns u)
  from assms have "\<And>n. fst (serve_connection env d) \<noteq> Some (SystemExit n)"
    by (simp add: no_signal_def serve_connection_no_signal)
  with Returns show ?thesis
    by (cases "serve_connection env d")
       (auto simp: loop_iteration_def call_def split: option.splits abrupt.splits)
next
  case (Fails e)
  then show ?thesis by (simp add: loop_iteration_def call_def)
next
  case (Interrupted sig)
  with assms show ?thesis by (simp add: no_signal_def)
qed

lemma accept_loop_no_signal:
  "list_all no_signal envs \<Longrightarrow> fst (accept_loop envs d) = None"
proof (induction envs arbitrary: d)
  case Nil
  then show ?case by simp
next
  case (Cons env envs)
  then have "fst (loop_iteration env d) = None" by (simp add: no_signal_continues)
  then obtain d1 where "loop_iteration env d = (None, d1)"
    by (cases "loop_iteration env d") auto
  with Cons show ?case by simp
qed

subsection \<open>Failures in the loop\<close>

lemma since_later_append:
  assumes "later d d2" and "trace d' = trace d2 @ xs"
  shows "since d d' = since d d2 @ xs"
proof -
  from assms(1) obtain zs where "trace d2 = trace d @ zs"
    by (auto simp: later_def prefix_def)
  with assms(2) show ?thesis by (simp add: since_def)
qed

lemma handler_trace:
  "trace (emit (Slept (1 / 10)) (log_message_json (ErrorDict (str_exc e)) 0 ''exception'' d2))
     = trace d2 @ error_log d2 e @ [Slept (1 / 10)]"
  by (simp add: emit_def log_message_json_def error_log_def)

lemma accept_failure_step:
  assumes "on_accept env = Fails e"
  shows "loop_iteration env d = (None, emit (Slept (1 / 10))
           (log_message_json (ErrorDict (str_exc e)) 0 ''exception'' d))"
  using assms by (simp add: loop_iteration_def call_def)

lemma recv_failure_step:
  assumes "on_accept env = Returns ()" and "on_recv env = Fails e"
  shows "loop_iteration env d = (None, emit (Slept (1 / 10))
           (log_message_json (ErrorDict (str_exc e)) 0 ''exception'' (emit ConnClosed d)))"
  using assms by (simp add: loop_iteration_def serve_connection_def call_def)

lemma send_failure_step:
  assumes "on_accept env = Returns ()" and "on_recv env = Returns received"
    and "received \<noteq> []" and "\<not> interrupted (on_read env)" and "on_send env = Fails e"
  shows "\<exists>response d2. later d d2 \<and>
           loop_iteration env d = (None, emit (Slept (1 / 10))
             (log_message_json (ErrorDict (str_exc e)) 0 ''exception''
               (emit ConnClosed (emit (SendAll response) d2))))"
proof -
  from assms(3) have ne: "take 1024 received \<noteq> []" by simp
  obtain response d2 where
    r: "compute_response (take 1024 received) (on_read env) d = (Inr response, d2)"
    using compute_response_no_signal [OF assms(4)] by blast
  then have "later d d2" by (rule compute_response_later)
  moreover from assms(1,2,5) ne r have
    "loop_iteration env d = (None, emit (Slept (1 / 10))
       (log_message_json (ErrorDict (str_exc e)) 0 ''exception''
         (emit ConnClosed (emit (SendAll response) d2))))"
    by (simp add: loop_iteration_def serve_connection_def call_def send_all_def)
  ultimately show ?thesis by blast
qed

lemma failure_step_summary:
  assumes "later d d2"
    and "loop_iteration env d = (None, emit (Slept (1 / 10))
           (log_message_json (ErrorDict (str_exc e)) 0 ''exception'' d3))"
    and "later d2 d3"
  shows "fst (loop_iteration env d) = None
       \<and> last (since d (snd (loop_iteration env d))) = Slept (1 / 10)
       \<and> (0 \<le> loglevel d \<longrightarrow>
            last (log_records (since d (snd (loop_iteration env d))))
              = (ErrorDict (str_exc e), 0, ''exception''))"
proof -
  from assms(1,3) have l: "later d d3" by (rule later_trans)
  then have lv: "loglevel d3 = loglevel d" by (simp add: later_def)
  have "since d (snd (loop_iteration env d)) = since d d3 @ error_log d3 e @ [Slept (1 / 10)]"
    using since_later_append [OF l handler_trace] assms(2) by simp
  then show ?thesis
    using assms(2) lv by (simp add: log_records_append error_log_def)
qed

text \<open>
  C6.  An exception that \<open>accept\<close>, \<open>recv\<close> or \<open>sendall\<close> raises (the calls outside the
  inner \<open>try\<close>, whose own handlers turn every other exception into an error reply)
  reaches the handler of the loop: the daemon makes the log call for the error, with
  \<open>{"error": str(e)}\<close>, level 0 and severity \<open>exception\<close> (the record is written when
  the threshold is 0 or more, as it is for every documented log level), then pauses for a
  tenth of a second, which is the last thing the turn does, and the loop goes on.  No run
  of connections in which no signal arrives ends the process, whatever the payloads, the
  samples and the failures are.
\<close>

theorem accept_loop_error_backoff:
  assumes "on_accept env = Fails e
         \<or> (on_accept env = Returns () \<and> on_recv env = Fails e)
         \<or> (on_accept env = Returns () \<and> on_recv env = Returns received \<and> received \<noteq> []
              \<and> \<not> interrupted (on_read env) \<and> on_send env = Fails e)"
  shows "fst (loop_iteration env d) = None
       \<and> last (since d (snd (loop_iteration env d))) = Slept (1 / 10)
       \<and> (0 \<le> loglevel d \<longrightarrow>
            last (log_records (since d (snd (loop_iteration env d))))
              = (ErrorDict (str_exc e), 0, ''exception''))
       \<and> (\<forall>envs. list_all no_signal envs \<longrightarrow> fst (accept_loop envs d) = None)"
proof -
  have run: "\<forall>envs. list_all no_signal envs \<longrightarrow> fst (accept_loop envs d) = None"
    by (simp add: accept_loop_no_signal)
  from assms consider
      (accept) "on_accept env = Fails e"
    | (recv) "on_accept env = Returns ()" "on_recv env = Fails e"
    | (send) "on_accept env = Returns ()" "on_recv env = Returns received" "received \<noteq> []"
        "\<not> interrupted (on_read env)" "on_send env = Fails e"
    by blast
  then have "fst (loop_iteration env d) = None
       \<and> last (since d (snd (loop_iteration env d))) = Slept (1 / 10)
       \<and> (0 \<le> loglevel d \<longrightarrow>
            last (log_records (since d (snd (loop_iteration env d))))
              = (ErrorDict (str_exc e), 0, ''exception''))"
  proof cases
    case accept
    show ?thesis
      by (rule failure_step_summary [OF later_refl accept_failure_step [OF accept] later_refl])
  next
    case recv
    show ?thesis
      by (rule failure_step_summary
            [OF later_refl recv_failure_step [OF recv] later_emit [OF later_refl]])
  next
    case send
    from send_failure_step [OF send] obtain response d2 where
      "later d d2" and
      "loop_iteration env d = (None, emit (Slept (1 / 10))
         (log_message_json (ErrorDict (str_exc e)) 0 ''exception''
           (emit ConnClosed (emit (SendAll response) d2))))"
      by blast
    then show ?thesis
      by (rule failure_step_summary) (intro later_emit later_refl)
  qed
  with run show ?thesis by blast
qed

theorem accept_loop_error_backoff_witness:
  "fst (loop_iteration broken_pipe serving_state) = None
   \<and> last (since serving_state (snd (loop_iteration broken_pipe serving_state))) = Slept (1 / 10)
   \<and> last (log_records (since serving_state (snd (loop_iteration broken_pipe serving_state))))
       = (ErrorDict ''[Errno 32] Broken pipe'', 0, ''exception'')
   \<and> fst (accept_loop [request ''abc'' NaN, request [] NaN] serving_state) = None"
proof -
  have hyp: "on_accept broken_pipe = Returns () \<and> on_recv broken_pipe = Returns ''2''
      \<and> ''2'' \<noteq> [] \<and> \<not> interrupted (on_read broken_pipe)
      \<and> on_send broken_pipe = Fails (OtherException ''[Errno 32] Broken pipe'')"
    by (simp add: broken_pipe_def)
  have ns: "list_all no_signal [request ''abc'' NaN, request [] NaN]"
    by (simp add: no_signal_def request_def)
  have lv: "0 \<le> loglevel serving_state"
    by (simp add: serving_state_def)
  note th = accept_loop_error_backoff [OF disjI2 [OF disjI2 [OF hyp]], of serving_state]
  from th lv have turn: "fst (loop_iteration broken_pipe serving_state) = None
      \<and> last (since serving_state (snd (loop_iteration broken_pipe serving_state)))
          = Slept (1 / 10)
      \<and> last (log_records (since serving_state (snd (loop_iteration broken_pipe serving_state))))
          = (ErrorDict ''[Errno 32] Broken pipe'', 0, ''exception'')"
    by simp
  from th ns have "fst (accept_loop [request ''abc'' NaN, request [] NaN] serving_state) = None"
    by blast
  with turn show ?thesis by blast
qed

subsection \<open>Shutdown\<close>





subsection \<open>What a request leaves as it was\<close>

text \<open>
  C8.  A turn of the loop, and so any run of turns, leaves the channel set and the socket
  path as they were, for every payload, every answer of the hardware and of the peer, and
  also when a signal arrives.  Nothing is carried over to the next request: after any run,
  a request for a channel from 0 to 7 is answered with the sample taken in its own turn,
  so that of two identical requests only the voltage in the reply differs.
\<close>

theorem request_leaves_state_unchanged:
  "channels (snd (loop_iteration env d)) = channels d
   \<and> socket_file (snd (loop_iteration env d)) = socket_file d
   \<and> channels (snd (accept_loop envs d)) = channels d
   \<and> socket_file (snd (accept_loop envs d)) = socket_file d
   \<and> (channels d = mcp_pins \<and> on_accept env' = Returns () \<and> on_recv env' = Returns received
        \<and> parse_channel (take 1024 received) = Some channel \<and> 0 \<le> channel \<and> channel \<le> 7
        \<and> on_read env' = Returns v \<and> \<not> interrupted (on_send env') \<longrightarrow>
        replies (since (snd (accept_loop envs d))
                  (snd (loop_iteration env' (snd (accept_loop envs d))))) = [format_4f v])"
proof -
  have one: "later d (snd (loop_iteration env d))"
    by (cases "loop_iteration env d") (simp add: loop_iteration_later)
  have run: "later d (snd (accept_loop envs d))"
    by (cases "accept_loop envs d") (simp add: accept_loop_later)
  have again: "replies (since (snd (accept_loop envs d))
                  (snd (loop_iteration env' (snd (accept_loop envs d))))) = [format_4f v]"
    if h: "channels d = mcp_pins \<and> on_accept env' = Returns () \<and> on_recv env' = Returns received
        \<and> parse_channel (take 1024 received) = Some channel \<and> 0 \<le> channel \<and> channel \<le> 7
        \<and> on_read env' = Returns v \<and> \<not> interrupted (on_send env')"
  proof -
    from run h have "channels (snd (accept_loop envs d)) = mcp_pins"
      by (simp add: later_def)
    with h valid_channel_step [of env' received channel v "snd (accept_loop envs d)"]
    show ?thesis by simp
  qed
  from one run again show ?thesis by (simp add: later_def)
qed

theorem request_leaves_state_unchanged_witness:
  "channels (snd (accept_loop [request ''0'' (Finite (33 / 20))] serving_state)) = mcp_pins
   \<and> socket_file (snd (accept_loop [request ''0'' (Finite (33 / 20))] serving_state))
       = ''/tmp/adc-daemon.sock''
   \<and> replies (since (snd (accept_loop [request ''0'' (Finite (33 / 20))] serving_state))
        (snd (loop_iteration (request ''0'' (Finite 0))
               (snd (accept_loop [request ''0'' (Finite (33 / 20))] serving_state)))))
       = [''0.0000'']"
proof -
  have p: "parse_channel (take 1024 ''0'') = Some 0"
    by (simp add: codec_defs)
  have f: "format_4f (Finite 0) = ''0.0000''"
    by (simp add: format_defs str_nat.simps)
  have s: "channels serving_state = mcp_pins" "socket_file serving_state = ''/tmp/adc-daemon.sock''"
    by (simp_all add: serving_state_def)
  have e: "on_accept (request ''0'' (Finite 0)) = Returns ()"
    "on_recv (request ''0'' (Finite 0)) = Returns ''0''"
    "on_read (request ''0'' (Finite 0)) = Returns (Finite 0)"
    "\<not> interrupted (on_send (request ''0'' (Finite 0)))"
    by (simp_all add: request_def)
  note th = request_leaves_state_unchanged [of "request ''0'' (Finite (33 / 20))" serving_state
      "[request ''0'' (Finite (33 / 20))]" "request ''0'' (Finite 0)" "''0''" 0 "Finite 0"]
  from th p f s e show ?thesis by simp
qed

subsection \<open>The syntax of a request\<close>

text \<open>
  C9.  The request is read by \<open>int\<close> after decoding and stripping, so every payload that
  \<open>int\<close> accepts with a value from 0 to 7 gets the voltage reply of that channel, not
  only a plain ASCII digit: a sign (\<open>+3\<close>), blanks around the digit, leading zeros, and
  decimal digits outside ASCII (the Arabic-Indic and the fullwidth digit three in UTF-8;
  every digit of every decimal run of the table parses to its value).
\<close>

theorem python_int_syntax_accepted:
  "(channels d = mcp_pins \<and> on_accept env = Returns () \<and> on_recv env = Returns received
      \<and> parse_channel (take 1024 received) = Some channel \<and> 0 \<le> channel \<and> channel \<le> 7
      \<and> on_read env = Returns v \<and> \<not> interrupted (on_send env) \<longrightarrow>
      replies (since d (snd (loop_iteration env d))) = [format_4f v]
      \<and> voltage_reads (since d (snd (loop_iteration env d))) = [nat channel])
   \<and> parse_channel ''+3'' = Some 3
   \<and> parse_channel '' 3 '' = Some 3
   \<and> parse_channel ''007'' = Some 7
   \<and> parse_channel [CHR 0xD9, CHR 0xA3] = Some 3
   \<and> parse_channel [CHR 0xEF, CHR 0xBC, CHR 0x93] = Some 3
   \<and> (\<forall>z \<in> set decimal_zeros. \<forall>k < 10. py_int [z + k] = Some (int k))"
proof -
  have step: "replies (since d (snd (loop_iteration env d))) = [format_4f v]
      \<and> voltage_reads (since d (snd (loop_iteration env d))) = [nat channel]"
    if h: "channels d = mcp_pins \<and> on_accept env = Returns () \<and> on_recv env = Returns received
      \<and> parse_channel (take 1024 received) = Some channel \<and> 0 \<le> channel \<and> channel \<le> 7
      \<and> on_read env = Returns v \<and> \<not> interrupted (on_send env)"
    using h valid_channel_step [of env received channel v d] by simp
  have a: "parse_channel ''+3'' = Some 3" by (simp add: codec_defs)
  have b: "parse_channel '' 3 '' = Some 3" by (simp add: codec_defs)
  have c: "parse_channel ''007'' = Some 7" by (simp add: codec_defs)
  have e: "parse_channel [CHR 0xD9, CHR 0xA3] = Some 3" by (simp add: codec_defs)
  have f: "parse_channel [CHR 0xEF, CHR 0xBC, CHR 0x93] = Some 3" by (simp add: codec_defs)
  have g: "\<forall>z \<in> set decimal_zeros. \<forall>k < 10. py_int [z + k] = Some (int k)"
    by (simp add: decimal_digit_parses)
  from step a b c e f g show ?thesis by blast
qed

theorem python_int_syntax_accepted_witness:
  "parse_channel (take 1024 ''+3'') = Some 3
   \<and> replies (since serving_state
        (snd (loop_iteration (request ''+3'' (Finite (33 / 20))) serving_state))) = [''1.6500'']
   \<and> voltage_reads (since serving_state
        (snd (loop_iteration (request ''+3'' (Finite (33 / 20))) serving_state))) = [3]
   \<and> py_int [0x663] = Some 3"
proof -
  have p: "parse_channel (take 1024 ''+3'') = Some 3"
    by (simp add: codec_defs)
  have f: "format_4f (Finite (33 / 20)) = ''1.6500''"
    by (simp add: format_defs str_nat.simps)
  have s: "channels serving_state = mcp_pins"
    by (simp add: serving_state_def)
  have e: "on_accept (request ''+3'' (Finite (33 / 20))) = Returns ()"
    "on_recv (request ''+3'' (Finite (33 / 20))) = Returns ''+3''"
    "on_read (request ''+3'' (Finite (33 / 20))) = Returns (Finite (33 / 20))"
    "\<not> interrupted (on_send (request ''+3'' (Finite (33 / 20))))"
    by (simp_all add: request_def)
  have z: "(0x660::nat) \<in> set decimal_zeros" by (simp add: decimal_zeros_def)
  note th = python_int_syntax_accepted [of serving_state "request ''+3'' (Finite (33 / 20))"
      "''+3''" 3 "Finite (33 / 20)"]
  have k: "(3::nat) < 10" by simp
  from th z k have "py_int [0x660 + 3] = Some (int 3)" by blast
  then have d: "py_int [0x663] = Some 3" by simp
  from th p f s e d show ?thesis by simp
qed

subsection \<open>Startup\<close>

lemma parse_arguments_choice:
  "parse_arguments c = Inr p \<Longrightarrow> args_hwversion p \<in> set [''2.2'', ''5.1'', ''7.1'']"
  by (auto simp: parse_arguments_def split: option.splits if_splits)

lemma parse_arguments_exit:
  "parse_arguments c = Inl a \<Longrightarrow> a = SystemExit 2"
  by (auto simp: parse_arguments_def split: option.splits if_splits)

lemma parse_arguments_unknown:
  "opt_hwversion c = Some v \<Longrightarrow> v \<notin> set [''2.2'', ''5.1'', ''7.1'']
   \<Longrightarrow> parse_arguments c = Inl (SystemExit 2)"
  by (auto simp: parse_arguments_def split: option.splits)

lemma acquire_cs_returns:
  assumes "hw \<in> set [''2.2'', ''5.1'', ''7.1'']"
  shows "\<exists>cs. acquire_cs hw (Returns ()) d = (Inr (Some cs), emit (PinAcquired cs) d)"
  using assms by (auto simp: acquire_cs_def call_def)

lemma acquire_cs_call:
  assumes "hw \<in> set [''2.2'', ''5.1'', ''7.1'']" and "call ans d = (Inl a, d')"
  shows "acquire_cs hw ans d = (Inl a, d')"
  using assms by (auto simp: acquire_cs_def)

lemma init_adc_failure:
  assumes "init_failure env = Some e"
  shows "init_adc (Some cs) env d
           = (Inl (SystemExit 1), log_message_json (ErrorDict (str_exc e)) 0 ''exception'' d)"
  using assms
  by (auto simp: init_failure_def init_adc_def init_body_def call_def split: answer.splits)




text \<open>
  A start in which every hardware call returns ends in the loop, in the state the examples
  use; a stale file at the socket path is removed and the socket is bound in its place.
\<close>

lemma startup_reaches_serving:
  "main (cli_for ''7.1'') good_start [] (module_state Map.empty)
     = (None, serving_state\<lparr>trace :=
          [PinAcquired D25,
           Logged (Text ''Starting ADC daemon for hardware version 7.1'') 2 ''info'',
           Logged (Text ''ADC channels initialized successfully'') 3 ''info'',
           SocketCreated, Bound ''/tmp/adc-daemon.sock'', Chmod ''/tmp/adc-daemon.sock'' 438,
           Listen 5,
           Logged (Text ''Listening on socket /tmp/adc-daemon.sock'') 2 ''info'']\<rparr>)"
  by (simp add: main_def cli_for_def parse_arguments_def good_start_def module_state_def
      acquire_cs_def call_def init_adc_def init_body_def log_message_json_def emit_def
      open_socket_def os_path_exists_def socket_bind_def serving_state_def)

lemma stale_socket_replaced:
  "fs (snd (main (cli_for ''2.2'') good_start []
         (module_state [''/tmp/adc-daemon.sock'' \<mapsto> FileNode]))) ''/tmp/adc-daemon.sock''
     = Some SocketNode
   \<and> fst (main (cli_for ''2.2'') good_start []
         (module_state [''/tmp/adc-daemon.sock'' \<mapsto> FileNode])) = None"
  by (simp add: main_def cli_for_def parse_arguments_def good_start_def module_state_def
      acquire_cs_def call_def init_adc_def init_body_def log_message_json_def emit_def
      open_socket_def os_path_exists_def os_unlink_def socket_bind_def)




lemma main_bad_arguments:
  assumes "parse_arguments c = Inl a"
  shows "main c env conns d = (Some (SystemExit 2), d)"
  using assms parse_arguments_exit [OF assms] by (simp add: main_def)

lemma main_cs_failure:
  assumes "parse_arguments c = Inr p" and "on_cs_pin env = Fails e"
  shows "main c env conns d = (Some (Raised e), d\<lparr>loglevel := args_loglevel p\<rparr>)"
proof -
  from assms(1) have hw: "args_hwversion p \<in> set [''2.2'', ''5.1'', ''7.1'']"
    by (rule parse_arguments_choice)
  have "call (on_cs_pin env) (d\<lparr>loglevel := args_loglevel p\<rparr>)
      = (Inl (Raised e), d\<lparr>loglevel := args_loglevel p\<rparr>)"
    using assms(2) by (simp add: call_def)
  with hw have "acquire_cs (args_hwversion p) (on_cs_pin env) (d\<lparr>loglevel := args_loglevel p\<rparr>)
      = (Inl (Raised e), d\<lparr>loglevel := args_loglevel p\<rparr>)"
    by (rule acquire_cs_call)
  with assms(1) show ?thesis by (simp add: main_def Let_def)
qed

lemma main_init_failure:
  assumes "parse_arguments c = Inr p" and "on_cs_pin env = Returns ()"
    and "init_failure env = Some e"
  shows "\<exists>cs m. main c env conns d
           = (Some (SystemExit 1),
              log_message_json (ErrorDict (str_exc e)) 0 ''exception''
                (log_message_json (Text m) 2 ''info''
                  (emit (PinAcquired cs) (d\<lparr>loglevel := args_loglevel p\<rparr>))))"
proof -
  from assms(1) have hw: "args_hwversion p \<in> set [''2.2'', ''5.1'', ''7.1'']"
    by (rule parse_arguments_choice)
  then obtain cs where
    acq: "acquire_cs (args_hwversion p) (Returns ()) (d\<lparr>loglevel := args_loglevel p\<rparr>)
            = (Inr (Some cs), emit (PinAcquired cs) (d\<lparr>loglevel := args_loglevel p\<rparr>))"
    using acquire_cs_returns by blast
  with assms(1,2) init_adc_failure [OF assms(3)] have
    "main c env conns d
       = (Some (SystemExit 1),
          log_message_json (ErrorDict (str_exc e)) 0 ''exception''
            (log_message_json
               (Text (''Starting ADC daemon for hardware version '' @ args_hwversion p)) 2 ''info''
               (emit (PinAcquired cs) (d\<lparr>loglevel := args_loglevel p\<rparr>))))"
    by (simp add: main_def Let_def)
  then show ?thesis by blast
qed

lemma startup_failure_state:
  assumes "d' = log_message_json (ErrorDict m') 0 ''exception''
                (log_message_json (Text m) 2 ''info''
                  (emit (PinAcquired cs) (d\<lparr>loglevel := l\<rparr>)))"
  shows "socket_events (since d d') = [] \<and> fs d' = fs d
       \<and> (0 \<le> l \<longrightarrow> last (log_records (since d d')) = (ErrorDict m', 0, ''exception''))"
  using assms by (simp add: since_def log_message_json_def emit_def)

text \<open>
  C5, as stated, says that every fatal startup error is logged.  An unrecognised hardware
  version is turned down by the argument parser, which leaves with status 2: the daemon
  makes no log call.
\<close>

theorem unknown_revision_counterexample:
  "fst (main (cli_for ''9.9'') good_start [] (module_state Map.empty)) = Some (SystemExit 2)
   \<and> log_records (trace (snd (main (cli_for ''9.9'') good_start [] (module_state Map.empty)))) = []"
  by (simp add: main_def cli_for_def parse_arguments_def module_state_def)

text \<open>
  C5, amended.  Every fatal startup error ends the process with a status that is not 0
  before any socket is created or bound, and the file system is as it was.  An unrecognised
  (or missing) hardware version is turned down by the argument parser with status 2 and
  without a log call.  A failure of a call under the \<open>try\<close> of the hardware
  initialisation (the bus, the converter, the analog inputs) is passed to the logger with
  \<open>{"error": str(e)}\<close>, level 0 and severity \<open>exception\<close> (written when the threshold
  is 0 or more) and ends the process with status 1.  A failure to acquire the chip-select
  pin ends the process with status 1 as well; whether it is logged is left open here.
\<close>

theorem fatal_startup_error:
  "(parse_arguments c = Inl a \<longrightarrow> main c env conns d = (Some (SystemExit 2), d))
   \<and> (opt_hwversion c = Some v \<and> v \<notin> set [''2.2'', ''5.1'', ''7.1''] \<longrightarrow>
        main c env conns d = (Some (SystemExit 2), d))
   \<and> (parse_arguments c = Inr p
        \<and> (on_cs_pin env = Fails e \<or> on_cs_pin env = Returns () \<and> init_failure env = Some e) \<longrightarrow>
        (\<exists>a. fst (main c env conns d) = Some a \<and> exit_status a = 1)
        \<and> socket_events (since d (snd (main c env conns d))) = []
        \<and> fs (snd (main c env conns d)) = fs d)
   \<and> (parse_arguments c = Inr p \<and> on_cs_pin env = Returns () \<and> init_failure env = Some e \<longrightarrow>
        fst (main c env conns d) = Some (SystemExit 1)
        \<and> (0 \<le> args_loglevel p \<longrightarrow>
             last (log_records (since d (snd (main c env conns d))))
               = (ErrorDict (str_exc e), 0, ''exception'')))"
proof -
  have bad: "main c env conns d = (Some (SystemExit 2), d)" if "parse_arguments c = Inl a"
    using that by (rule main_bad_arguments)
  have unknown: "main c env conns d = (Some (SystemExit 2), d)"
    if "opt_hwversion c = Some v \<and> v \<notin> set [''2.2'', ''5.1'', ''7.1'']"
  proof -
    from that have "parse_arguments c = Inl (SystemExit 2)"
      by (blast intro: parse_arguments_unknown)
    then show ?thesis by (rule main_bad_arguments)
  qed
  have pin: "(\<exists>a. fst (main c env conns d) = Some a \<and> exit_status a = 1)
        \<and> socket_events (since d (snd (main c env conns d))) = []
        \<and> fs (snd (main c env conns d)) = fs d"
    if "parse_arguments c = Inr p" and "on_cs_pin env = Fails e"
    using main_cs_failure [OF that] by (simp add: since_def)
  have init: "fst (main c env conns d) = Some (SystemExit 1)
        \<and> socket_events (since d (snd (main c env conns d))) = []
        \<and> fs (snd (main c env conns d)) = fs d
        \<and> (0 \<le> args_loglevel p \<longrightarrow>
             last (log_records (since d (snd (main c env conns d))))
               = (ErrorDict (str_exc e), 0, ''exception''))"
    if "parse_arguments c = Inr p" and "on_cs_pin env = Returns ()" and "init_failure env = Some e"
  proof -
    from main_init_failure [OF that] obtain cs m where
      m: "main c env conns d
           = (Some (SystemExit 1),
              log_message_json (ErrorDict (str_exc e)) 0 ''exception''
                (log_message_json (Text m) 2 ''info''
                  (emit (PinAcquired cs) (d\<lparr>loglevel := args_loglevel p\<rparr>))))"
      by blast
    then have "snd (main c env conns d)
        = log_message_json (ErrorDict (str_exc e)) 0 ''exception''
            (log_message_json (Text m) 2 ''info''
              (emit (PinAcquired cs) (d\<lparr>loglevel := args_loglevel p\<rparr>)))"
      by simp
    from startup_failure_state [OF this] m show ?thesis by simp
  qed
  from bad unknown pin init show ?thesis
    by (intro conjI impI; (elim conjE disjE)?; simp)
qed

theorem fatal_startup_error_witness:
  "main (cli_for ''9.9'') good_start [] (module_state Map.empty)
     = (Some (SystemExit 2), module_state Map.empty)
   \<and> init_failure (good_start\<lparr>on_spi := Fails (OtherException ''SPI device busy'')\<rparr>)
       = Some (OtherException ''SPI device busy'')
   \<and> fst (main (cli_for ''7.1'') (good_start\<lparr>on_spi := Fails (OtherException ''SPI device busy'')\<rparr>)
        [] (module_state Map.empty)) = Some (SystemExit 1)
   \<and> last (log_records (since (module_state Map.empty)
        (snd (main (cli_for ''7.1'')
               (good_start\<lparr>on_spi := Fails (OtherException ''SPI device busy'')\<rparr>) []
               (module_state Map.empty)))))
       = (ErrorDict ''SPI device busy'', 0, ''exception'')
   \<and> socket_events (since (module_state Map.empty)
        (snd (main (cli_for ''7.1'')
               (good_start\<lparr>on_spi := Fails (OtherException ''SPI device busy'')\<rparr>) []
               (module_state Map.empty)))) = []"
proof -
  let ?env = "good_start\<lparr>on_spi := Fails (OtherException ''SPI device busy'')\<rparr>"
  have v: "opt_hwversion (cli_for ''9.9'') = Some ''9.9''"
    "''9.9'' \<notin> set [''2.2'', ''5.1'', ''7.1'']"
    by (simp_all add: cli_for_def)
  have p: "parse_arguments (cli_for ''7.1'')
      = Inr \<lparr>args_loglevel = 3, args_hwversion = ''7.1''\<rparr>"
    by (simp add: parse_arguments_def cli_for_def)
  have e: "on_cs_pin ?env = Returns ()"
    "init_failure ?env = Some (OtherException ''SPI device busy'')"
    by (simp_all add: good_start_def init_failure_def)
  note bad = fatal_startup_error [of "cli_for ''9.9''" _ good_start "[]" "module_state Map.empty"
      "''9.9''"]
  note init = fatal_startup_error [of "cli_for ''7.1''" _ ?env "[]" "module_state Map.empty" _
      "\<lparr>args_loglevel = 3, args_hwversion = ''7.1''\<rparr>" "OtherException ''SPI device busy''"]
  from bad v have one: "main (cli_for ''9.9'') good_start [] (module_state Map.empty)
     = (Some (SystemExit 2), module_state Map.empty)"
    by blast
  from init p e have two:
    "fst (main (cli_for ''7.1'') ?env [] (module_state Map.empty)) = Some (SystemExit 1)
     \<and> last (log_records (since (module_state Map.empty)
          (snd (main (cli_for ''7.1'') ?env [] (module_state Map.empty)))))
         = (ErrorDict ''SPI device busy'', 0, ''exception'')
     \<and> socket_events (since (module_state Map.empty)
          (snd (main (cli_for ''7.1'') ?env [] (module_state Map.empty)))) = []"
    by simp
  from one two e show ?thesis by blast
qed

end
